theory Spec2Isabelle
  imports Main
begin

section \<open>Special commands of a notebook cell (package specialcmd)\<close>

text \<open>
  A shallow embedding of \<^verbatim>\<open>specialcmd/specialcmd.go\<close>: the lexer \<^verbatim>\<open>splitCmd\<close>, the
  continuation-line joiner \<^verbatim>\<open>joinLine\<close>, the dispatcher \<^verbatim>\<open>execInternal\<close>, the shell
  escape \<^verbatim>\<open>execShell\<close> and the cell scanner \<^verbatim>\<open>Parse\<close>.

  Go strings are byte sequences and \<^verbatim>\<open>s[i]\<close> reads a byte, so a Go string is a
  \<^typ>\<open>string\<close> (a list of 8-bit characters). Go's \<^verbatim>\<open>int\<close> indices are \<^typ>\<open>int\<close>; a
  \<^verbatim>\<open>Set[int]\<close> is an \<^typ>\<open>int set\<close>. A run-time panic (an index out of range, a failed
  type assertion) is the value \<open>Panic\<close>.
\<close>

subsection \<open>Bytes and panics\<close>

abbreviation dquote :: char where "dquote \<equiv> CHR 0x22"
abbreviation backslash :: char where "backslash \<equiv> CHR 0x5C"
abbreviation tab :: char where "tab \<equiv> CHR 0x09"
abbreviation newline :: char where "newline \<equiv> CHR 0x0A"

datatype 'a go = Panic | Returns 'a

subsection \<open>splitCmd\<close>

text \<open>
  \<^verbatim>\<open>fmt.Sprintf("%s%c", part, c)\<close> with \<^verbatim>\<open>c\<close> a byte: the verb \<^verbatim>\<open>%c\<close> prints the Unicode
  code point of that number, UTF-8 encoded. A byte below 128 is printed as itself, a
  byte from 128 on as the two bytes \<open>110000xx 10yyyyyy\<close>.
\<close>

definition fmt_c :: "char \<Rightarrow> string" where
  "fmt_c c =
     (if (of_char c :: nat) < 128 then [c]
      else [char_of (192 + (of_char c :: nat) div 64), char_of (128 + (of_char c :: nat) mod 64)])"

definition isSpace :: "char \<Rightarrow> bool" where
  "isSpace c \<longleftrightarrow> c = CHR '' '' \<or> c = tab \<or> c = newline"

text \<open>The \<^verbatim>\<open>switch c\<close> after a backslash inside quotes.\<close>

definition unescape :: "char \<Rightarrow> char" where
  "unescape c = (if c = CHR ''n'' then newline else if c = CHR ''t'' then tab else c)"

text \<open>\<^verbatim>\<open>if partStarted { parts = append(parts, part) }\<close>\<close>

definition flush :: "bool \<Rightarrow> string \<Rightarrow> string list \<Rightarrow> string list" where
  "flush partStarted part parts = (if partStarted then parts @ [part] else parts)"

text \<open>
  The \<^verbatim>\<open>for pos\<close> loop of \<^verbatim>\<open>splitCmd\<close>, on the bytes from \<^verbatim>\<open>pos\<close> on. The empty list is
  the loop's exit, where the last part is flushed; the \<^verbatim>\<open>break\<close> on a backslash that is
  the last byte inside quotes reaches the same flush.
\<close>

fun splitCmd_loop :: "string \<Rightarrow> bool \<Rightarrow> bool \<Rightarrow> string \<Rightarrow> string list \<Rightarrow> string list" where
  "splitCmd_loop [] partStarted inQuotes part parts = flush partStarted part parts"
| "splitCmd_loop (c # cs) partStarted inQuotes part parts =
     (if \<not> inQuotes \<and> isSpace c then
        splitCmd_loop cs False inQuotes [] (flush partStarted part parts)
      else if c = dquote then
        (if inQuotes then splitCmd_loop cs partStarted False part parts
         else splitCmd_loop cs True True part parts)
      else if c = backslash \<and> inQuotes then
        (case cs of
           [] \<Rightarrow> flush partStarted part parts
         | d # ds \<Rightarrow> splitCmd_loop ds True inQuotes (part @ fmt_c (unescape d)) parts)
      else splitCmd_loop cs True inQuotes (part @ fmt_c c) parts)"

definition splitCmd :: "string \<Rightarrow> string list" where
  "splitCmd cmd = splitCmd_loop cmd False False [] []"

subsection \<open>joinLine\<close>

text \<open>
  The \<^verbatim>\<open>for ; fromLine < len(lines); fromLine++\<close> loop of \<^verbatim>\<open>joinLine\<close>, with the
  accumulated \<^verbatim>\<open>cmdStr\<close> and the set \<^verbatim>\<open>usedLines\<close> it writes to. \<^verbatim>\<open>lines[fromLine]\<close> panics on
  a negative index, \<^verbatim>\<open>cmdStr[len(cmdStr)-1]\<close> on an empty \<^verbatim>\<open>cmdStr\<close>.
\<close>

function joinLine_loop :: "string list \<Rightarrow> int \<Rightarrow> string \<Rightarrow> int set \<Rightarrow> (string \<times> int set) go" where
  "joinLine_loop lines fromLine cmdStr usedLines =
     (if fromLine < int (length lines) then
        (if fromLine < 0 then Panic
         else if cmdStr @ lines ! nat fromLine = [] then Panic
         else if last (cmdStr @ lines ! nat fromLine) \<noteq> backslash then
           Returns (cmdStr @ lines ! nat fromLine, insert fromLine usedLines)
         else
           joinLine_loop lines (fromLine + 1)
             (butlast (cmdStr @ lines ! nat fromLine) @ '' '') (insert fromLine usedLines))
      else Returns (cmdStr, usedLines))"
  by pat_completeness auto
termination
  by (relation "measure (\<lambda>(lines, fromLine, cmdStr, usedLines). nat (int (length lines) - fromLine))") auto

declare joinLine_loop.simps [simp del]

definition joinLine :: "string list \<Rightarrow> int \<Rightarrow> int set \<Rightarrow> (string \<times> int set) go" where
  "joinLine lines fromLine usedLines = joinLine_loop lines fromLine [] usedLines"

subsection \<open>Messages, errors and the collaborators outside this file\<close>

text \<open>
  \<^verbatim>\<open>msg kernel.Message\<close> is an interface value that may be nil (the tests pass nil);
  \<^verbatim>\<open>msg.ComposedMsg().Content\<close> is nil, a \<^verbatim>\<open>map[string]any\<close> or a value of another type.
  Of a Go \<^verbatim>\<open>any\<close> only whether it is a \<^verbatim>\<open>bool\<close>, and which, is read here.
\<close>

datatype any = AnyBool bool | AnyOther

datatype Content = NilContent | MapContent "(string \<times> any) list" | OtherContent

datatype Message = NilMessage | Msg Content

text \<open>
  The errors this file makes (each \<^verbatim>\<open>errors.Errorf\<close> and \<^verbatim>\<open>errors.Wrapf\<close> is a constructor,
  with the values its format string prints) and the errors its collaborators return.
  \<^item> \<open>EnvArgCount n\<close>: \<^verbatim>\<open>`%env <VAR_NAME> <value>`: it takes 2 arguments, ..., but n were given\<close>
  \<^item> \<open>SetenvFailed e k v\<close>: \<^verbatim>\<open>Wrapf(e, "`%%env %q %q` failed", k, v)\<close>
  \<^item> \<open>CdArgCount n\<close>: \<^verbatim>\<open>`%cd [<directory>]`: it takes none or one argument, but n were given\<close>
  \<^item> \<open>ChdirFailed e d\<close>: \<^verbatim>\<open>Wrapf(e, "`%%cd %q` failed", d)\<close>
  \<^item> \<open>ResetParam\<close>: \<^verbatim>\<open>%reset only take one optional parameter "go.mod"\<close>
  \<^item> \<open>WithInputsNotAvailable\<close>, \<open>WithPasswordNotAvailable\<close>: \<^verbatim>\<open>... not available in this notebook\<close>
  \<^item> \<open>External s\<close>: an error returned by the operating system, the kernel or goexec.
\<close>

datatype error =
    EnvArgCount int
  | SetenvFailed error string string
  | CdArgCount int
  | ChdirFailed error string
  | ResetParam
  | WithInputsNotAvailable
  | WithPasswordNotAvailable
  | External string

datatype stream = StreamStdout | StreamStderr

text \<open>The options of \<^verbatim>\<open>kernel.PipeExecToJupyter\<close>: none, \<^verbatim>\<open>WithInputs(ms)\<close> or \<^verbatim>\<open>WithPassword(ms)\<close>.\<close>

datatype input_mode = NoInput | WithInputs nat | WithPassword nat

definition MillisecondsWaitForInput :: nat where
  "MillisecondsWaitForInput = 200"

text \<open>The lines this file writes to the log with \<^verbatim>\<open>klog\<close>, each with the values it prints.\<close>

datatype logline =
    InfoProgramArgs "string list"
  | ErrorAutoTrackFailed error
  | ErrorFailedToOutput error
  | ErrorFailedToSetEnv string error
  | ErrorFailedPublishingHelp error
  | ErrorReportingUnknown string error

text \<open>
  Every call this file makes into code that is not in it: the operating system
  (\<^verbatim>\<open>os.Setenv\<close>, \<^verbatim>\<open>os.Chdir\<close>), the kernel (\<^verbatim>\<open>PublishWriteStream\<close>,
  \<^verbatim>\<open>PublishDisplayDataWithMarkdown\<close>, \<^verbatim>\<open>PipeExecToJupyter(msg, "/bin/bash", "-c",
  cmd).InDir(dir)...Exec()\<close>), the methods of \<^verbatim>\<open>goexec.State\<close> (\<^verbatim>\<open>AutoTrack\<close>, \<^verbatim>\<open>GoModInit\<close>,
  \<^verbatim>\<open>GoWorkFix\<close>), the other files of this package (\<^verbatim>\<open>resetDefinitions\<close>, \<^verbatim>\<open>listDefinitions\<close>,
  \<^verbatim>\<open>removeDefinitions\<close>, \<^verbatim>\<open>execTrack\<close>, \<^verbatim>\<open>execUntrack\<close>) and the logger. Each carries the
  arguments the Go call passes.
\<close>

datatype call =
    Setenv string string
  | Chdir string
  | PublishWriteStream Message stream string
  | PublishDisplayDataWithMarkdown Message string
  | PipeExecToJupyter Message string string input_mode
  | AutoTrack
  | GoModInit
  | GoWorkFix Message
  | ResetDefinitions Message
  | ListDefinitions Message
  | RemoveDefinitions Message "string list"
  | ExecTrack Message "string list"
  | ExecUntrack Message "string list"
  | Klog logline

text \<open>
  \<^verbatim>\<open>goexec.State\<close>: the three fields this file reads or assigns, and \<open>world\<close> for the rest
  of the state and everything else a collaborator can change (the environment
  variables, the working directory, the streams to the notebook, the log).
\<close>

record 'w State =
  Args :: "string list"
  AutoGet :: bool
  TempDir :: string
  world :: 'w

text \<open>
  The collaborators are parameters of the model. \<open>perform c s\<close> is what the call \<open>c\<close> does
  in state \<open>s\<close>: the error it returns (none for a call that returns nothing) and the
  state after it. \<open>Getwd\<close> is \<^verbatim>\<open>pwd, _ := os.Getwd()\<close>, \<open>ReplaceTildeInDir\<close> the function of
  package \<^verbatim>\<open>common\<close>, \<open>quoted\<close> what the verb \<^verbatim>\<open>%q\<close> prints for a string, \<open>HelpMessage\<close> the
  embedded \<^verbatim>\<open>help.md\<close> and \<open>GONB_DIR_ENV\<close> the constant of package \<^verbatim>\<open>protocol\<close>.
\<close>

record 'w collaborators =
  perform :: "call \<Rightarrow> 'w State \<Rightarrow> error option \<times> 'w State"
  Getwd :: "'w State \<Rightarrow> string"
  ReplaceTildeInDir :: "'w State \<Rightarrow> string \<Rightarrow> string"
  quoted :: "string \<Rightarrow> string"
  HelpMessage :: string
  GONB_DIR_ENV :: string

text \<open>A call whose result is dropped (\<^verbatim>\<open>_ = f()\<close>, or a function that returns nothing).\<close>

definition effect :: "'w collaborators \<Rightarrow> call \<Rightarrow> 'w State \<Rightarrow> 'w State" where
  "effect env c s = snd (perform env c s)"

text \<open>\<^verbatim>\<open>if err != nil { klog.Errorf(...) }\<close> after a call: the error is logged and dropped.\<close>

definition logged :: "'w collaborators \<Rightarrow> (error \<Rightarrow> logline) \<Rightarrow> error option \<times> 'w State \<Rightarrow> 'w State" where
  "logged env line r = (case fst r of None \<Rightarrow> snd r | Some e \<Rightarrow> effect env (Klog (line e)) (snd r))"

subsection \<open>execInternal\<close>

record cellStatus =
  withInputs :: bool
  withPassword :: bool

text \<open>
  \<^verbatim>\<open>content = msg.ComposedMsg().Content.(map[string]any)\<close> when \<^verbatim>\<open>msg\<close> and its content are
  not nil; the type assertion panics on a content of another type. Otherwise \<^verbatim>\<open>content\<close>
  stays the nil map, which reads as empty.
\<close>

definition content_of :: "Message \<Rightarrow> (string \<times> any) list go" where
  "content_of msg =
     (case msg of
        NilMessage \<Rightarrow> Returns []
      | Msg NilContent \<Rightarrow> Returns []
      | Msg (MapContent m) \<Rightarrow> Returns m
      | Msg OtherContent \<Rightarrow> Panic)"

text \<open>\<^verbatim>\<open>content["allow_stdin"].(bool)\<close>: panics unless the key holds a \<^verbatim>\<open>bool\<close>.\<close>

definition allow_stdin :: "(string \<times> any) list \<Rightarrow> bool go" where
  "allow_stdin content =
     (case map_of content ''allow_stdin'' of
        Some (AnyBool b) \<Rightarrow> Returns b
      | Some AnyOther \<Rightarrow> Panic
      | None \<Rightarrow> Panic)"

text \<open>
  The result of \<^verbatim>\<open>execInternal\<close>: the error it returns, the \<^verbatim>\<open>cellStatus\<close> (passed by
  pointer) and the state after it. \<open>p0\<close> is \<^verbatim>\<open>parts[0]\<close>, which panics when \<^verbatim>\<open>splitCmd\<close>
  returns no part.
\<close>

definition execInternal ::
  "'w collaborators \<Rightarrow> Message \<Rightarrow> 'w State \<Rightarrow> string \<Rightarrow> cellStatus
     \<Rightarrow> (error option \<times> cellStatus \<times> 'w State) go" where
  "execInternal env msg goExec cmdStr status =
     (case content_of msg of
        Panic \<Rightarrow> Panic
      | Returns content \<Rightarrow>
     (case splitCmd cmdStr of
        [] \<Rightarrow> Panic
      | p0 # rest \<Rightarrow>
          let parts = p0 # rest in
          if p0 = ''%'' \<or> p0 = ''main'' \<or> p0 = ''args'' then
            Returns (None, status, effect env (Klog (InfoProgramArgs parts)) (goExec\<lparr>Args := rest\<rparr>))
          else if p0 = ''env'' then
            (if length parts \<noteq> 3 then
               Returns (Some (EnvArgCount (int (length parts) - 1)), status, goExec)
             else
               (case perform env (Setenv (parts ! 1) (parts ! 2)) goExec of
                  (Some e, s1) \<Rightarrow> Returns (Some (SetenvFailed e (parts ! 1) (parts ! 2)), status, s1)
                | (None, s1) \<Rightarrow>
                    Returns (None, status,
                      logged env ErrorFailedToOutput
                        (perform env (PublishWriteStream msg StreamStdout
                           (''Set: '' @ parts ! 1 @ ''='' @ quoted env (parts ! 2) @ [newline])) s1))))
          else if p0 = ''cd'' then
            (if length parts = 1 then
               Returns (None, status,
                 effect env (PublishWriteStream msg StreamStdout
                   (''Current directory: '' @ quoted env (Getwd env goExec) @ [newline])) goExec)
             else if length parts > 2 then
               Returns (Some (CdArgCount (int (length parts) - 1)), status, goExec)
             else
               (case perform env (Chdir (ReplaceTildeInDir env goExec (parts ! 1))) goExec of
                  (Some e, s1) \<Rightarrow> Returns (Some (ChdirFailed e (parts ! 1)), status, s1)
                | (None, s1) \<Rightarrow>
                    let pwd = Getwd env s1;
                        s2 = logged env ErrorFailedToOutput
                               (perform env (PublishWriteStream msg StreamStdout
                                  (''Changed directory to '' @ quoted env pwd @ [newline])) s1);
                        s3 = logged env (ErrorFailedToSetEnv (GONB_DIR_ENV env))
                               (perform env (Setenv (GONB_DIR_ENV env) pwd) s2)
                    in Returns (None, status, s3)))
          else if p0 = ''autoget'' then Returns (None, status, goExec\<lparr>AutoGet := True\<rparr>)
          else if p0 = ''noautoget'' then Returns (None, status, goExec\<lparr>AutoGet := False\<rparr>)
          else if p0 = ''help'' then
            Returns (None, status,
              logged env ErrorFailedPublishingHelp
                (perform env (PublishDisplayDataWithMarkdown msg (HelpMessage env)) goExec))
          else if p0 = ''reset'' then
            (if length parts = 1 then
               (case perform env GoModInit (effect env (ResetDefinitions msg) goExec) of
                  (e, s2) \<Rightarrow> Returns (e, status, s2))
             else if length parts > 2 \<or> parts ! 1 \<noteq> ''go.mod'' then
               Returns (Some ResetParam, status, goExec)
             else
               (case perform env GoModInit goExec of (e, s1) \<Rightarrow> Returns (e, status, s1)))
          else if p0 = ''ls'' \<or> p0 = ''list'' then
            Returns (None, status, effect env (ListDefinitions msg) goExec)
          else if p0 = ''rm'' \<or> p0 = ''remove'' then
            Returns (None, status, effect env (RemoveDefinitions msg rest) goExec)
          else if p0 = ''with_inputs'' then
            (case allow_stdin content of
               Panic \<Rightarrow> Panic
             | Returns allowInput \<Rightarrow>
                 if \<not> allowInput \<and> (withInputs status \<or> withPassword status) then
                   Returns (Some WithInputsNotAvailable, status, goExec)
                 else Returns (None, status\<lparr>withInputs := True\<rparr>, goExec))
          else if p0 = ''with_password'' then
            (case allow_stdin content of
               Panic \<Rightarrow> Panic
             | Returns allowInput \<Rightarrow>
                 if \<not> allowInput \<and> (withInputs status \<or> withPassword status) then
                   Returns (Some WithPasswordNotAvailable, status, goExec)
                 else Returns (None, status\<lparr>withPassword := True\<rparr>, goExec))
          else if p0 = ''track'' then
            Returns (None, status, effect env (ExecTrack msg rest) goExec)
          else if p0 = ''untrack'' then
            Returns (None, status, effect env (ExecUntrack msg rest) goExec)
          else if p0 = ''goworkfix'' then
            (case perform env (GoWorkFix msg) goExec of (e, s1) \<Rightarrow> Returns (e, status, s1))
          else
            Returns (None, status,
              logged env (ErrorReportingUnknown p0)
                (perform env (PublishWriteStream msg StreamStderr
                   ([dquote] @ ''%'' @ p0 @ [dquote] @ '' unknown or not implemented yet.'')) goExec))))"

text \<open>The labels of the \<^verbatim>\<open>case\<close> clauses of the \<^verbatim>\<open>switch parts[0]\<close> in \<^verbatim>\<open>execInternal\<close>.\<close>

definition dispatch_names :: "string list" where
  "dispatch_names = [''%'', ''main'', ''args'', ''env'', ''cd'', ''autoget'', ''noautoget'', ''help'',
     ''reset'', ''ls'', ''list'', ''rm'', ''remove'', ''with_inputs'', ''with_password'',
     ''track'', ''untrack'', ''goworkfix'']"

subsection \<open>execShell\<close>

text \<open>
  \<^verbatim>\<open>cmdStr[0]\<close> panics on an empty command. A leading \<^verbatim>\<open>*\<close> is dropped and runs the command
  in \<^verbatim>\<open>goExec.TempDir\<close>; otherwise the directory is the empty string.
\<close>

definition execShell ::
  "'w collaborators \<Rightarrow> Message \<Rightarrow> 'w State \<Rightarrow> string \<Rightarrow> cellStatus
     \<Rightarrow> (error option \<times> cellStatus \<times> 'w State) go" where
  "execShell env msg goExec cmdStr status =
     (case cmdStr of
        [] \<Rightarrow> Panic
      | c # cs \<Rightarrow>
          let cmd = (if c = CHR ''*'' then cs else cmdStr);
              execDir = (if c = CHR ''*'' then TempDir goExec else [])
          in
          if withInputs status then
            (case perform env (PipeExecToJupyter msg cmd execDir (WithInputs MillisecondsWaitForInput)) goExec of
               (e, s1) \<Rightarrow> Returns (e, status\<lparr>withInputs := False, withPassword := False\<rparr>, s1))
          else if withPassword status then
            (case perform env (PipeExecToJupyter msg cmd execDir (WithPassword MillisecondsWaitForInput)) goExec of
               (e, s1) \<Rightarrow> Returns (e, status\<lparr>withInputs := False, withPassword := False\<rparr>, s1))
          else
            (case perform env (PipeExecToJupyter msg cmd execDir NoInput) goExec of
               (e, s1) \<Rightarrow> Returns (e, status, s1)))"

subsection \<open>Parse\<close>

text \<open>
  The variables of \<^verbatim>\<open>Parse\<close> that its loop changes: the set \<^verbatim>\<open>usedLines\<close>, the local
  \<^verbatim>\<open>status\<close>, the named result \<^verbatim>\<open>err\<close> and the state behind \<^verbatim>\<open>goExec\<close>.
\<close>

record 'w vars =
  v_usedLines :: "int set"
  v_status :: cellStatus
  v_err :: "error option"
  v_goExec :: "'w State"

text \<open>One iteration of the loop falls through to the next line, returns, or panics.\<close>

datatype 'a iteration = Continue 'a | Return 'a | Panicked

text \<open>\<^verbatim>\<open>for cmdStr[0] == ' ' { cmdStr = cmdStr[1:] }\<close>: the read panics once \<^verbatim>\<open>cmdStr\<close> is empty.\<close>

fun skipSpaces :: "string \<Rightarrow> string go" where
  "skipSpaces [] = Panic"
| "skipSpaces (c # cs) = (if c = CHR '' '' then skipSpaces cs else Returns (c # cs))"

text \<open>
  The start of a special command at \<^verbatim>\<open>lineNum\<close> (lines 50 to 56): \<^verbatim>\<open>cmdStr = joinLine(...)\<close>,
  \<^verbatim>\<open>cmdType := cmdStr[0]\<close>, \<^verbatim>\<open>cmdStr = cmdStr[1:]\<close> and the loop that skips spaces. It gives
  \<^verbatim>\<open>cmdType\<close>, \<^verbatim>\<open>cmdStr\<close> and the set \<^verbatim>\<open>usedLines\<close> after \<^verbatim>\<open>joinLine\<close>.
\<close>

definition Parse_command :: "string list \<Rightarrow> int \<Rightarrow> int set \<Rightarrow> (char \<times> string \<times> int set) go" where
  "Parse_command codeLines lineNum usedLines =
     (case joinLine codeLines lineNum usedLines of
        Panic \<Rightarrow> Panic
      | Returns (joined, used) \<Rightarrow>
     (case joined of
        [] \<Rightarrow> Panic
      | cmdType # afterType \<Rightarrow>
     (case skipSpaces afterType of
        Panic \<Rightarrow> Panic
      | Returns cmdStr \<Rightarrow> Returns (cmdType, cmdStr, used))))"

text \<open>
  \<^verbatim>\<open>switch cmdType\<close>, under \<^verbatim>\<open>if execute\<close> (lines 62 to 79). \<^verbatim>\<open>err\<close> is assigned by each executed
  command, and by \<^verbatim>\<open>goExec.AutoTrack()\<close> after a shell command that returned no error; \<^verbatim>\<open>Parse\<close>
  returns from here only after a non-nil \<^verbatim>\<open>err\<close> of \<^verbatim>\<open>execInternal\<close> or \<^verbatim>\<open>execShell\<close>. A
  \<^verbatim>\<open>cmdType\<close> that is neither sigil matches no \<^verbatim>\<open>case\<close>.
\<close>

definition Parse_switch ::
  "'w collaborators \<Rightarrow> Message \<Rightarrow> char \<Rightarrow> string \<Rightarrow> 'w vars \<Rightarrow> 'w vars iteration" where
  "Parse_switch env msg cmdType cmdStr v =
     (if cmdType = CHR ''%'' then
        (case execInternal env msg (v_goExec v) cmdStr (v_status v) of
           Panic \<Rightarrow> Panicked
         | Returns (e, status, s) \<Rightarrow>
             if e \<noteq> None then Return (v\<lparr>v_status := status, v_err := e, v_goExec := s\<rparr>)
             else Continue (v\<lparr>v_status := status, v_err := e, v_goExec := s\<rparr>))
      else if cmdType = CHR ''!'' then
        (case execShell env msg (v_goExec v) cmdStr (v_status v) of
           Panic \<Rightarrow> Panicked
         | Returns (e, status, s) \<Rightarrow>
             if e \<noteq> None then Return (v\<lparr>v_status := status, v_err := e, v_goExec := s\<rparr>)
             else
               Continue (v\<lparr>v_status := status,
                           v_err := fst (perform env AutoTrack s),
                           v_goExec := logged env ErrorAutoTrackFailed (perform env AutoTrack s)\<rparr>))
      else Continue v)"

text \<open>
  The body of the loop at \<^verbatim>\<open>lineNum\<close> (lines 45 to 81, within \<^verbatim>\<open>0 <= lineNum < len(codeLines)\<close>):
  a line already in \<^verbatim>\<open>usedLines\<close> is passed over; a line longer than one byte that starts
  with \<^verbatim>\<open>%\<close> or \<^verbatim>\<open>!\<close> is a special command; any other line is left alone.
\<close>

definition Parse_iteration ::
  "'w collaborators \<Rightarrow> Message \<Rightarrow> bool \<Rightarrow> string list \<Rightarrow> int \<Rightarrow> 'w vars \<Rightarrow> 'w vars iteration" where
  "Parse_iteration env msg execute codeLines lineNum v =
     (if lineNum \<in> v_usedLines v then Continue v
      else if length (codeLines ! nat lineNum) > 1
             \<and> (hd (codeLines ! nat lineNum) = CHR ''%'' \<or> hd (codeLines ! nat lineNum) = CHR ''!'') then
        (case Parse_command codeLines lineNum (v_usedLines v) of
           Panic \<Rightarrow> Panicked
         | Returns (cmdType, cmdStr, used) \<Rightarrow>
             if length cmdStr = 0 then Continue (v\<lparr>v_usedLines := used\<rparr>)
             else if execute then Parse_switch env msg cmdType cmdStr (v\<lparr>v_usedLines := used\<rparr>)
             else Continue (v\<lparr>v_usedLines := used\<rparr>))
      else Continue v)"

function Parse_loop ::
  "'w collaborators \<Rightarrow> Message \<Rightarrow> bool \<Rightarrow> string list \<Rightarrow> int \<Rightarrow> 'w vars \<Rightarrow> 'w vars go" where
  "Parse_loop env msg execute codeLines lineNum v =
     (if lineNum < int (length codeLines) then
        (case Parse_iteration env msg execute codeLines lineNum v of
           Continue v' \<Rightarrow> Parse_loop env msg execute codeLines (lineNum + 1) v'
         | Return v' \<Rightarrow> Returns v'
         | Panicked \<Rightarrow> Panic)
      else Returns v)"
  by pat_completeness auto
termination
  by (relation "measure (\<lambda>(env, msg, execute, codeLines, lineNum, v). nat (int (length codeLines) - lineNum))") auto

declare Parse_loop.simps [simp del]

text \<open>The variables when the loop starts: \<^verbatim>\<open>status := &cellStatus{}\<close>, \<^verbatim>\<open>err\<close> nil.\<close>

definition Parse_start :: "'w State \<Rightarrow> int set \<Rightarrow> 'w vars" where
  "Parse_start goExec usedLines =
     \<lparr>v_usedLines = usedLines, v_status = \<lparr>withInputs = False, withPassword = False\<rparr>,
      v_err = None, v_goExec = goExec\<rparr>"

text \<open>
  \<^verbatim>\<open>Parse\<close> returns \<^verbatim>\<open>err\<close>; its caller also sees what it did to the set \<^verbatim>\<open>usedLines\<close> and
  to the state behind \<^verbatim>\<open>goExec\<close>.
\<close>

definition Parse ::
  "'w collaborators \<Rightarrow> Message \<Rightarrow> 'w State \<Rightarrow> bool \<Rightarrow> string list \<Rightarrow> int set
     \<Rightarrow> (error option \<times> int set \<times> 'w State) go" where
  "Parse env msg goExec execute codeLines usedLines =
     (case Parse_loop env msg execute codeLines 0 (Parse_start goExec usedLines) of
        Panic \<Rightarrow> Panic
      | Returns v \<Rightarrow> Returns (v_err v, v_usedLines v, v_goExec v))"

subsection \<open>The states a pass of Parse goes through\<close>

text \<open>
  \<open>Parse_reach env msg execute codeLines v0 lineNum v\<close>: the loop of \<^verbatim>\<open>Parse\<close>, started at
  line 0 with the variables \<open>v0\<close>, arrives at the head of the loop with \<^verbatim>\<open>lineNum\<close> and the
  variables \<open>v\<close>. Only an iteration that falls through leads on; a \<^verbatim>\<open>return\<close> or a panic
  ends the pass.
\<close>

inductive Parse_reach ::
  "'w collaborators \<Rightarrow> Message \<Rightarrow> bool \<Rightarrow> string list \<Rightarrow> 'w vars \<Rightarrow> int \<Rightarrow> 'w vars \<Rightarrow> bool"
  for env msg execute codeLines v0 where
    reach_start: "Parse_reach env msg execute codeLines v0 0 v0"
  | reach_step: "Parse_reach env msg execute codeLines v0 lineNum v \<Longrightarrow>
       lineNum < int (length codeLines) \<Longrightarrow>
       Parse_iteration env msg execute codeLines lineNum v = Continue v' \<Longrightarrow>
       Parse_reach env msg execute codeLines v0 (lineNum + 1) v'"

subsection \<open>Collaborators for running the model\<close>

text \<open>
  A concrete choice of the collaborators, used to run the model on examples: every
  call is recorded in \<open>world\<close>, in order, and \<open>outcome\<close> decides the error it returns.
\<close>

definition recording :: "(call \<Rightarrow> error option) \<Rightarrow> call list collaborators" where
  "recording outcome =
     \<lparr>perform = (\<lambda>c s. (outcome c, s\<lparr>world := world s @ [c]\<rparr>)),
      Getwd = (\<lambda>s. ''/''),
      ReplaceTildeInDir = (\<lambda>s d. d),
      quoted = (\<lambda>x. [dquote] @ x @ [dquote]),
      HelpMessage = ''help'',
      GONB_DIR_ENV = ''GONB_DIR''\<rparr>"

section \<open>Properties\<close>

subsection \<open>The lexer and the joiner on the inputs of the tests\<close>

text \<open>
  C1. On \<^verbatim>\<open>--msg="hello world"\<close>, white space (space, tab, newline, space), then
  \<^verbatim>\<open>--msg2="it replied \"\nhello\t\""\<close>, white space and a lone double quote, \<^verbatim>\<open>splitCmd\<close>
  returns exactly three parts: \<^verbatim>\<open>--msg=hello world\<close>; \<^verbatim>\<open>--msg2=it replied "\<close> followed by a
  newline, \<^verbatim>\<open>hello\<close>, a tab and a double quote; and the empty string. The first input
  below ends in two spaces and the quote, as the specification writes it; the second is
  the string of \<^verbatim>\<open>TestSplitCmd\<close>, with one space before the quote.
\<close>

theorem splitCmd_test_input:
  "splitCmd (''--msg='' @ [dquote] @ ''hello world'' @ [dquote, CHR '' '', tab, newline]
       @ ''--msg2='' @ [dquote] @ ''it replied '' @ [backslash, dquote, backslash] @ ''nhello''
       @ [backslash] @ ''t'' @ [backslash, dquote, dquote] @ ''  '' @ [dquote])
     = [''--msg=hello world'',
        ''--msg2=it replied '' @ [dquote, newline] @ ''hello'' @ [tab, dquote],
        '''']
   \<and> splitCmd (''--msg='' @ [dquote] @ ''hello world'' @ [dquote, CHR '' '', tab, newline, CHR '' '']
       @ ''--msg2='' @ [dquote] @ ''it replied '' @ [backslash, dquote, backslash] @ ''nhello''
       @ [backslash] @ ''t'' @ [backslash, dquote, dquote] @ '' '' @ [dquote])
     = [''--msg=hello world'',
        ''--msg2=it replied '' @ [dquote, newline] @ ''hello'' @ [tab, dquote],
        '''']"
  by (simp add: splitCmd_def fmt_c_def isSpace_def unescape_def flush_def)

text \<open>
  C2. \<^verbatim>\<open>joinLine\<close> on the five lines \<^verbatim>\<open>a\<close>, \<^verbatim>\<open>b c\<close> with a trailing backslash, \<^verbatim>\<open>d\<close> with a
  trailing backslash, \<^verbatim>\<open>e\<close> and \<^verbatim>\<open>f\<close>, from line 1, returns \<^verbatim>\<open>b c d e\<close> and inserts exactly the
  indices 1, 2 and 3 into \<^verbatim>\<open>usedLines\<close>, whatever the set held before.
\<close>

theorem joinLine_test_input:
  "joinLine [''a'', ''b c'' @ [backslash], ''d'' @ [backslash], ''e'', ''f''] 1 usedLines
     = Returns (''b c d e'', {1, 2, 3} \<union> usedLines)"
  by (auto simp add: joinLine_def joinLine_loop.simps)

subsection \<open>joinLine never reads out of range\<close>

text \<open>
  Once the accumulated string or the line at \<open>fromLine\<close> is non-empty, the loop returns:
  it joins the lines \<open>fromLine, \<dots>, m\<close> for some \<open>m\<close> below \<open>length lines\<close>, and the indices it
  writes are exactly that interval, whatever \<open>usedLines\<close> held.
\<close>

lemma joinLine_loop_span:
  assumes "0 \<le> fromLine" and "fromLine < int (length lines)"
    and "cmdStr \<noteq> [] \<or> lines ! nat fromLine \<noteq> []"
  shows "\<exists>res m. fromLine \<le> m \<and> m < int (length lines) \<and> res \<noteq> [] \<and>
           (\<forall>usedLines. joinLine_loop lines fromLine cmdStr usedLines
                = Returns (res, usedLines \<union> {fromLine..m}))"
  using assms
proof (induction "nat (int (length lines) - fromLine)" arbitrary: fromLine cmdStr)
  case 0
  then show ?case by simp
next
  case (Suc k)
  let ?s = "cmdStr @ lines ! nat fromLine"
  have ne: "?s \<noteq> []" using Suc.prems(3) by auto
  show ?case
  proof (cases "last ?s \<noteq> backslash")
    case True
    have "\<forall>usedLines. joinLine_loop lines fromLine cmdStr usedLines
            = Returns (?s, usedLines \<union> {fromLine..fromLine})"
      using Suc.prems(1,2) ne True by (auto simp add: joinLine_loop.simps[of lines fromLine])
    then show ?thesis using Suc.prems(2) ne by blast
  next
    case False
    let ?c = "butlast ?s @ '' ''"
    have step: "\<And>usedLines. joinLine_loop lines fromLine cmdStr usedLines
            = joinLine_loop lines (fromLine + 1) ?c (insert fromLine usedLines)"
      using Suc.prems(1,2) ne False by (auto simp add: joinLine_loop.simps[of lines fromLine])
    show ?thesis
    proof (cases "fromLine + 1 < int (length lines)")
      case True
      have k: "k = nat (int (length lines) - (fromLine + 1))" using Suc.hyps(2) by linarith
      have "\<exists>res m. fromLine + 1 \<le> m \<and> m < int (length lines) \<and> res \<noteq> [] \<and>
           (\<forall>usedLines. joinLine_loop lines (fromLine + 1) ?c usedLines
                = Returns (res, usedLines \<union> {fromLine + 1..m}))"
        using Suc.hyps(1)[OF k _ True] Suc.prems(1) by simp
      then obtain res m where m: "fromLine + 1 \<le> m" "m < int (length lines)" "res \<noteq> []"
        and r: "\<And>usedLines. joinLine_loop lines (fromLine + 1) ?c usedLines
                = Returns (res, usedLines \<union> {fromLine + 1..m})"
        by blast
      have iv: "\<And>usedLines. insert fromLine usedLines \<union> {fromLine + 1..m} = usedLines \<union> {fromLine..m}"
        using m(1) by auto
      have "\<forall>usedLines. joinLine_loop lines fromLine cmdStr usedLines
                = Returns (res, usedLines \<union> {fromLine..m})"
        using step r iv by simp
      then show ?thesis using m by (intro exI[of _ res] exI[of _ m]) simp
    next
      case False
      have "\<forall>usedLines. joinLine_loop lines fromLine cmdStr usedLines
                = Returns (?c, usedLines \<union> {fromLine..fromLine})"
        using False by (simp add: step joinLine_loop.simps[of lines "fromLine + 1"])
      then show ?thesis using Suc.prems(2) by (intro exI[of _ ?c] exI[of _ fromLine]) simp
    qed
  qed
qed

text \<open>
  C9. When \<^verbatim>\<open>lines[fromLine]\<close> is non-empty, \<^verbatim>\<open>joinLine\<close> returns (it is a total function
  and its result is not a panic, so \<^verbatim>\<open>cmdStr\<close> was non-empty wherever its last byte was
  read), and the indices it inserts into \<^verbatim>\<open>usedLines\<close> are an interval that starts at
  \<^verbatim>\<open>fromLine\<close> and ends below \<^verbatim>\<open>len(lines)\<close>.
\<close>

theorem joinLine_in_range:
  assumes "0 \<le> fromLine" and "fromLine < int (length lines)"
    and "lines ! nat fromLine \<noteq> []"
  shows "\<exists>cmdStr m. fromLine \<le> m \<and> m < int (length lines) \<and> cmdStr \<noteq> [] \<and>
           (\<forall>usedLines. joinLine lines fromLine usedLines
                = Returns (cmdStr, usedLines \<union> {fromLine..m}))"
  unfolding joinLine_def using joinLine_loop_span[of fromLine lines "[]"] assms by simp

theorem joinLine_in_range_witness:
  "(0::int) \<le> 1 \<and> (1::int) < int (length [''a'', ''b c'' @ [backslash], ''d'' @ [backslash], ''e'', ''f''])
   \<and> [''a'', ''b c'' @ [backslash], ''d'' @ [backslash], ''e'', ''f''] ! nat 1 \<noteq> []
   \<and> (\<exists>cmdStr m. 1 \<le> m \<and> m < int (length [''a'', ''b c'' @ [backslash], ''d'' @ [backslash], ''e'', ''f''])
         \<and> cmdStr \<noteq> []
         \<and> (\<forall>usedLines. joinLine [''a'', ''b c'' @ [backslash], ''d'' @ [backslash], ''e'', ''f''] 1 usedLines
                = Returns (cmdStr, usedLines \<union> {1..m})))"
  using joinLine_in_range[of 1 "[''a'', ''b c'' @ [backslash], ''d'' @ [backslash], ''e'', ''f'']"]
  by simp

subsection \<open>Consumed lines\<close>

text \<open>The definitions to unfold when the model is run on a concrete cell.\<close>

lemmas run_defs =
  Parse_def Parse_start_def Parse_loop.simps Parse_iteration_def Parse_command_def Parse_switch_def
  joinLine_def joinLine_loop.simps execInternal_def execShell_def content_of_def allow_stdin_def
  splitCmd_def isSpace_def flush_def fmt_c_def unescape_def effect_def logged_def

text \<open>
  Whenever \<^verbatim>\<open>joinLine\<close> returns, from a line of the cell, it has written an interval of
  indices that starts at \<^verbatim>\<open>fromLine\<close>.
\<close>

lemma joinLine_span:
  assumes "0 \<le> fromLine" and "fromLine < int (length lines)"
    and "joinLine lines fromLine usedLines = Returns (joined, used)"
  shows "\<exists>m. fromLine \<le> m \<and> m < int (length lines) \<and> used = usedLines \<union> {fromLine..m}"
proof (cases "lines ! nat fromLine = []")
  case True
  then have "joinLine lines fromLine usedLines = Panic"
    using assms(1,2) by (simp add: joinLine_def joinLine_loop.simps[of lines fromLine])
  then show ?thesis using assms(3) by simp
next
  case False
  then obtain res m where "fromLine \<le> m" "m < int (length lines)"
    and "\<forall>u. joinLine_loop lines fromLine [] u = Returns (res, u \<union> {fromLine..m})"
    using joinLine_loop_span[of fromLine lines "[]"] assms(1,2) by auto
  then show ?thesis using assms(3) by (auto simp: joinLine_def)
qed

text \<open>An iteration of \<^verbatim>\<open>Parse\<close> changes \<^verbatim>\<open>usedLines\<close> only through its call of \<^verbatim>\<open>joinLine\<close>.\<close>

lemma Parse_command_usedLines:
  "Parse_command codeLines lineNum usedLines = Returns (cmdType, cmdStr, used) \<Longrightarrow>
     \<exists>joined. joinLine codeLines lineNum usedLines = Returns (joined, used)"
  by (auto simp: Parse_command_def split: go.splits list.splits prod.splits)

lemma Parse_switch_usedLines:
  "Parse_switch env msg cmdType cmdStr v = Continue v' \<or> Parse_switch env msg cmdType cmdStr v = Return v'
     \<Longrightarrow> v_usedLines v' = v_usedLines v"
  by (auto simp: Parse_switch_def split: if_splits go.splits prod.splits)

lemma Parse_iteration_usedLines:
  assumes "Parse_iteration env msg execute codeLines lineNum v = Continue v'
         \<or> Parse_iteration env msg execute codeLines lineNum v = Return v'"
  shows "v_usedLines v' = v_usedLines v
       \<or> (lineNum \<notin> v_usedLines v \<and>
          (\<exists>joined. joinLine codeLines lineNum (v_usedLines v) = Returns (joined, v_usedLines v')))"
proof (cases "lineNum \<notin> v_usedLines v \<and> length (codeLines ! nat lineNum) > 1
             \<and> (hd (codeLines ! nat lineNum) = CHR ''%'' \<or> hd (codeLines ! nat lineNum) = CHR ''!'')")
  case False
  then have "Parse_iteration env msg execute codeLines lineNum v = Continue v"
    unfolding Parse_iteration_def by auto
  then show ?thesis using assms by simp
next
  case True
  show ?thesis
  proof (cases "Parse_command codeLines lineNum (v_usedLines v)")
    case Panic
    then have "Parse_iteration env msg execute codeLines lineNum v = Panicked"
      using True unfolding Parse_iteration_def by simp
    then show ?thesis using assms by simp
  next
    case (Returns r)
    obtain cmdType cmdStr used where r: "r = (cmdType, cmdStr, used)" by (cases r) auto
    have j: "\<exists>joined. joinLine codeLines lineNum (v_usedLines v) = Returns (joined, used)"
      using Parse_command_usedLines Returns r by blast
    have it: "Parse_iteration env msg execute codeLines lineNum v =
          (if length cmdStr = 0 then Continue (v\<lparr>v_usedLines := used\<rparr>)
           else if execute then Parse_switch env msg cmdType cmdStr (v\<lparr>v_usedLines := used\<rparr>)
           else Continue (v\<lparr>v_usedLines := used\<rparr>))"
      using True Returns r unfolding Parse_iteration_def by simp
    have "v_usedLines v' = used"
    proof (cases "length cmdStr \<noteq> 0 \<and> execute")
      case True
      then have "Parse_switch env msg cmdType cmdStr (v\<lparr>v_usedLines := used\<rparr>) = Continue v'
               \<or> Parse_switch env msg cmdType cmdStr (v\<lparr>v_usedLines := used\<rparr>) = Return v'"
        using assms it by simp
      from Parse_switch_usedLines[OF this] show ?thesis by simp
    next
      case False
      then have "Parse_iteration env msg execute codeLines lineNum v = Continue (v\<lparr>v_usedLines := used\<rparr>)"
        using it by auto
      then show ?thesis using assms by auto
    qed
    then show ?thesis using j True by simp
  qed
qed

lemma Parse_reach_range:
  "Parse_reach env msg execute codeLines v0 lineNum v \<Longrightarrow> 0 \<le> lineNum \<and> lineNum \<le> int (length codeLines)"
  by (induction rule: Parse_reach.induct) auto

text \<open>
  The invariant of the scan: an index that this pass has put into \<^verbatim>\<open>usedLines\<close> and that
  lies at or after \<^verbatim>\<open>lineNum\<close> belongs to a block of consumed lines that starts at
  \<^verbatim>\<open>lineNum\<close>.
\<close>

lemma Parse_reach_consumed:
  assumes "Parse_reach env msg execute codeLines v0 lineNum v"
  shows "v_usedLines v0 \<subseteq> v_usedLines v \<and>
         (\<forall>i j. i \<in> v_usedLines v \<and> i \<notin> v_usedLines v0 \<and> lineNum \<le> j \<and> j \<le> i \<longrightarrow> j \<in> v_usedLines v)"
  using assms
proof (induction rule: Parse_reach.induct)
  case reach_start
  then show ?case by auto
next
  case (reach_step lineNum v v')
  have rng: "0 \<le> lineNum" using Parse_reach_range[OF reach_step.hyps(1)] by simp
  from Parse_iteration_usedLines[of env msg execute codeLines lineNum v v'] reach_step.hyps(3)
  consider (same) "v_usedLines v' = v_usedLines v"
    | (joined) joined where "lineNum \<notin> v_usedLines v"
        "joinLine codeLines lineNum (v_usedLines v) = Returns (joined, v_usedLines v')"
    by auto
  then show ?case
  proof cases
    case same
    then show ?thesis using reach_step.IH by auto
  next
    case joined
    then obtain m where m: "lineNum \<le> m" "v_usedLines v' = v_usedLines v \<union> {lineNum..m}"
      using joinLine_span[OF rng reach_step.hyps(2)] by blast
    have before: "i < lineNum" if "i \<in> v_usedLines v" "i \<notin> v_usedLines v0" for i
    proof (rule ccontr)
      assume "\<not> i < lineNum"
      then have "lineNum \<le> lineNum \<and> lineNum \<le> i" by simp
      then have "lineNum \<in> v_usedLines v" using reach_step.IH that by blast
      then show False using joined(1) by simp
    qed
    show ?thesis
    proof (intro conjI allI impI)
      show "v_usedLines v0 \<subseteq> v_usedLines v'" using reach_step.IH m(2) by auto
    next
      fix i j
      assume a: "i \<in> v_usedLines v' \<and> i \<notin> v_usedLines v0 \<and> lineNum + 1 \<le> j \<and> j \<le> i"
      then have "i \<in> {lineNum..m}" using before[of i] m(2) by auto
      then show "j \<in> v_usedLines v'" using a m(2) by auto
    qed
  qed
qed

text \<open>
  A pass is deterministic, \<^verbatim>\<open>usedLines\<close> only grows along it, and after an iteration that
  called \<^verbatim>\<open>joinLine\<close> the set is the one \<^verbatim>\<open>joinLine\<close> returned: so what \<^verbatim>\<open>joinLine\<close> wrote at
  one line is in \<^verbatim>\<open>usedLines\<close> at every later head of the loop.
\<close>

lemma Parse_reach_deterministic:
  assumes "Parse_reach env msg execute codeLines v0 lineNum v"
    and "Parse_reach env msg execute codeLines v0 lineNum w"
  shows "v = w"
  using assms
proof (induction arbitrary: w rule: Parse_reach.induct)
  case reach_start
  from reach_start show ?case
  proof (cases rule: Parse_reach.cases)
    case reach_start
    then show ?thesis by simp
  next
    case (reach_step k u)
    then show ?thesis using Parse_reach_range[of env msg execute codeLines v0 k u] by simp
  qed
next
  case (reach_step lineNum v v')
  from reach_step.prems show ?case
  proof (cases rule: Parse_reach.cases)
    case reach_start
    then show ?thesis using Parse_reach_range[OF reach_step.hyps(1)] by simp
  next
    case (reach_step k u)
    then have "k = lineNum" by simp
    then have "u = v" using reach_step(2) reach_step.IH by simp
    then show ?thesis using reach_step(4) \<open>k = lineNum\<close> reach_step.hyps(3) by simp
  qed
qed

lemma Parse_iteration_grows:
  assumes "0 \<le> lineNum" and "lineNum < int (length codeLines)"
    and "Parse_iteration env msg execute codeLines lineNum v = Continue v'"
  shows "v_usedLines v \<subseteq> v_usedLines v'"
proof -
  from Parse_iteration_usedLines[of env msg execute codeLines lineNum v v'] assms(3)
  consider (same) "v_usedLines v' = v_usedLines v"
    | (joined) joined where "joinLine codeLines lineNum (v_usedLines v) = Returns (joined, v_usedLines v')"
    by auto
  then show ?thesis
  proof cases
    case same
    then show ?thesis by simp
  next
    case joined
    from joinLine_span[OF assms(1,2) joined] show ?thesis by auto
  qed
qed

lemma Parse_reach_later:
  assumes "Parse_reach env msg execute codeLines v0 n' w"
    and "Parse_reach env msg execute codeLines v0 lineNum v"
    and "lineNum < n'"
  shows "\<exists>v1. Parse_iteration env msg execute codeLines lineNum v = Continue v1
            \<and> v_usedLines v1 \<subseteq> v_usedLines w"
  using assms
proof (induction rule: Parse_reach.induct)
  case reach_start
  then show ?case using Parse_reach_range[of env msg execute codeLines v0 lineNum v] by simp
next
  case (reach_step k u w)
  have rk: "0 \<le> k" using Parse_reach_range[OF reach_step.hyps(1)] by simp
  show ?case
  proof (cases "lineNum = k")
    case True
    then have "u = v"
      using Parse_reach_deterministic[OF reach_step.hyps(1)] reach_step.prems(1) by simp
    then show ?thesis using reach_step.hyps(3) True by auto
  next
    case False
    then have "lineNum < k" using reach_step.prems(2) by simp
    from reach_step.IH[OF reach_step.prems(1) this]
    obtain v1 where "Parse_iteration env msg execute codeLines lineNum v = Continue v1"
      and "v_usedLines v1 \<subseteq> v_usedLines u" by blast
    moreover have "v_usedLines u \<subseteq> v_usedLines w"
      using Parse_iteration_grows[OF rk reach_step.hyps(2,3)] .
    ultimately show ?thesis by blast
  qed
qed

lemma Parse_iteration_joined:
  assumes "lineNum \<notin> v_usedLines v"
    and "length (codeLines ! nat lineNum) > 1"
    and "hd (codeLines ! nat lineNum) = CHR ''%'' \<or> hd (codeLines ! nat lineNum) = CHR ''!''"
    and "Parse_iteration env msg execute codeLines lineNum v = Continue v'"
  shows "\<exists>joined. joinLine codeLines lineNum (v_usedLines v) = Returns (joined, v_usedLines v')"
proof (cases "Parse_command codeLines lineNum (v_usedLines v)")
  case Panic
  then have "Parse_iteration env msg execute codeLines lineNum v = Panicked"
    using assms(1-3) unfolding Parse_iteration_def by simp
  then show ?thesis using assms(4) by simp
next
  case (Returns r)
  obtain cmdType cmdStr used where r: "r = (cmdType, cmdStr, used)" by (cases r) auto
  have j: "\<exists>joined. joinLine codeLines lineNum (v_usedLines v) = Returns (joined, used)"
    using Parse_command_usedLines Returns r by blast
  have it: "Parse_iteration env msg execute codeLines lineNum v =
        (if length cmdStr = 0 then Continue (v\<lparr>v_usedLines := used\<rparr>)
         else if execute then Parse_switch env msg cmdType cmdStr (v\<lparr>v_usedLines := used\<rparr>)
         else Continue (v\<lparr>v_usedLines := used\<rparr>))"
    using assms(1-3) Returns r unfolding Parse_iteration_def by simp
  have "v_usedLines v' = used"
  proof (cases "length cmdStr \<noteq> 0 \<and> execute")
    case True
    then have "Parse_switch env msg cmdType cmdStr (v\<lparr>v_usedLines := used\<rparr>) = Continue v'
             \<or> Parse_switch env msg cmdType cmdStr (v\<lparr>v_usedLines := used\<rparr>) = Return v'"
      using assms(4) it by simp
    from Parse_switch_usedLines[OF this] show ?thesis by simp
  next
    case False
    then have "Parse_iteration env msg execute codeLines lineNum v = Continue (v\<lparr>v_usedLines := used\<rparr>)"
      using it by auto
    then show ?thesis using assms(4) by auto
  qed
  then show ?thesis using j by simp
qed

text \<open>
  C7. In a pass of \<^verbatim>\<open>Parse\<close> no line is classified or consumed twice. At every head of
  the loop the pass reaches: a \<^verbatim>\<open>lineNum\<close> already in \<^verbatim>\<open>usedLines\<close> is skipped (the iteration
  changes nothing); and when \<^verbatim>\<open>joinLine\<close> is called, at a \<^verbatim>\<open>lineNum\<close> not in \<^verbatim>\<open>usedLines\<close>, the
  indices it writes are an interval \<open>lineNum..m\<close> inside the cell, they are what it adds to
  \<^verbatim>\<open>usedLines\<close>, and none of them was put into \<^verbatim>\<open>usedLines\<close> earlier in the pass: one that
  is already there was in the set \<^verbatim>\<open>Parse\<close> was called with (\<open>v0\<close>). Started with the empty
  set, as the callers do, every index \<^verbatim>\<open>joinLine\<close> writes is new. The set \<^verbatim>\<open>joinLine\<close>
  returned for a special command stays in \<^verbatim>\<open>usedLines\<close>: at every later head of the loop the
  pass reaches, all of it is in \<^verbatim>\<open>usedLines\<close>, so each of the lines \<open>lineNum..m\<close> is skipped
  when the scan comes to it, and a later head that is not in \<^verbatim>\<open>usedLines\<close>, where the next
  \<^verbatim>\<open>joinLine\<close> can start, lies after \<open>m\<close>.
\<close>

theorem Parse_no_line_twice:
  assumes "Parse_reach env msg execute codeLines v0 lineNum v"
    and "lineNum < int (length codeLines)"
  shows "(lineNum \<in> v_usedLines v \<longrightarrow>
            Parse_iteration env msg execute codeLines lineNum v = Continue v)
       \<and> (lineNum \<notin> v_usedLines v \<longrightarrow>
            (\<forall>joined used. joinLine codeLines lineNum (v_usedLines v) = Returns (joined, used) \<longrightarrow>
               (\<exists>m. lineNum \<le> m \<and> m < int (length codeLines)
                   \<and> used = v_usedLines v \<union> {lineNum..m}
                   \<and> {lineNum..m} \<inter> v_usedLines v \<subseteq> v_usedLines v0
                   \<and> (length (codeLines ! nat lineNum) > 1
                        \<and> (hd (codeLines ! nat lineNum) = CHR ''%''
                             \<or> hd (codeLines ! nat lineNum) = CHR ''!'') \<longrightarrow>
                      (\<forall>n' w. Parse_reach env msg execute codeLines v0 n' w \<and> lineNum < n' \<longrightarrow>
                         used \<subseteq> v_usedLines w \<and> (n' \<notin> v_usedLines w \<longrightarrow> m < n'))))))"
proof (intro conjI impI allI)
  assume "lineNum \<in> v_usedLines v"
  then show "Parse_iteration env msg execute codeLines lineNum v = Continue v"
    by (simp add: Parse_iteration_def)
next
  fix joined used
  assume notin: "lineNum \<notin> v_usedLines v"
    and j: "joinLine codeLines lineNum (v_usedLines v) = Returns (joined, used)"
  have rng: "0 \<le> lineNum" using Parse_reach_range[OF assms(1)] by simp
  obtain m where m: "lineNum \<le> m" "m < int (length codeLines)" "used = v_usedLines v \<union> {lineNum..m}"
    using joinLine_span[OF rng assms(2) j] by blast
  have fresh: "{lineNum..m} \<inter> v_usedLines v \<subseteq> v_usedLines v0"
  proof
    fix i assume i: "i \<in> {lineNum..m} \<inter> v_usedLines v"
    show "i \<in> v_usedLines v0"
    proof (rule ccontr)
      assume "i \<notin> v_usedLines v0"
      moreover have "lineNum \<le> lineNum \<and> lineNum \<le> i" using i by simp
      ultimately have "lineNum \<in> v_usedLines v" using Parse_reach_consumed[OF assms(1)] i by blast
      then show False using notin by simp
    qed
  qed
  have later: "used \<subseteq> v_usedLines w \<and> (n' \<notin> v_usedLines w \<longrightarrow> m < n')"
    if sp: "length (codeLines ! nat lineNum) > 1
            \<and> (hd (codeLines ! nat lineNum) = CHR ''%'' \<or> hd (codeLines ! nat lineNum) = CHR ''!'')"
      and r: "Parse_reach env msg execute codeLines v0 n' w \<and> lineNum < n'" for n' w
  proof -
    from Parse_reach_later[OF _ assms(1), of n' w] r
    obtain v1 where v1: "Parse_iteration env msg execute codeLines lineNum v = Continue v1"
      and sub: "v_usedLines v1 \<subseteq> v_usedLines w" by blast
    from Parse_iteration_joined[OF notin _ _ v1] sp
    obtain joined' where "joinLine codeLines lineNum (v_usedLines v) = Returns (joined', v_usedLines v1)"
      by blast
    then have "v_usedLines v1 = used" using j by simp
    then have a: "used \<subseteq> v_usedLines w" using sub by simp
    have "m < n'" if "n' \<notin> v_usedLines w"
    proof (rule ccontr)
      assume "\<not> m < n'"
      then have "n' \<in> {lineNum..m}" using r by simp
      then show False using a m(3) that by auto
    qed
    then show ?thesis using a by simp
  qed
  show "\<exists>m. lineNum \<le> m \<and> m < int (length codeLines)
                   \<and> used = v_usedLines v \<union> {lineNum..m}
                   \<and> {lineNum..m} \<inter> v_usedLines v \<subseteq> v_usedLines v0
                   \<and> (length (codeLines ! nat lineNum) > 1
                        \<and> (hd (codeLines ! nat lineNum) = CHR ''%''
                             \<or> hd (codeLines ! nat lineNum) = CHR ''!'') \<longrightarrow>
                      (\<forall>n' w. Parse_reach env msg execute codeLines v0 n' w \<and> lineNum < n' \<longrightarrow>
                         used \<subseteq> v_usedLines w \<and> (n' \<notin> v_usedLines w \<longrightarrow> m < n')))"
    using m fresh later by (intro exI[of _ m]) blast
qed

theorem Parse_no_line_twice_witness:
  "Parse_reach (recording (\<lambda>c. None)) NilMessage True [''%args a'' @ [backslash], ''b'', ''%autoget'']
      (Parse_start \<lparr>Args = [], AutoGet = False, TempDir = ''/tmp'', world = []\<rparr> {}) 0
      (Parse_start \<lparr>Args = [], AutoGet = False, TempDir = ''/tmp'', world = []\<rparr> {})
   \<and> (0::int) < int (length [''%args a'' @ [backslash], ''b'', ''%autoget''])
   \<and> (0::int) \<notin> {}
   \<and> joinLine [''%args a'' @ [backslash], ''b'', ''%autoget''] 0 {} = Returns (''%args a b'', {0, 1})
   \<and> length ([''%args a'' @ [backslash], ''b'', ''%autoget''] ! nat 0) > 1
   \<and> hd ([''%args a'' @ [backslash], ''b'', ''%autoget''] ! nat 0) = CHR ''%''
   \<and> Parse_reach (recording (\<lambda>c. None)) NilMessage True [''%args a'' @ [backslash], ''b'', ''%autoget'']
      (Parse_start \<lparr>Args = [], AutoGet = False, TempDir = ''/tmp'', world = []\<rparr> {}) 1
      \<lparr>v_usedLines = {0, 1}, v_status = \<lparr>withInputs = False, withPassword = False\<rparr>, v_err = None,
        v_goExec = \<lparr>Args = [''a'', ''b''], AutoGet = False, TempDir = ''/tmp'',
                     world = [Klog (InfoProgramArgs [''args'', ''a'', ''b''])]\<rparr>\<rparr>
   \<and> (0::int) < 1
   \<and> {0, 1} \<subseteq> v_usedLines
        \<lparr>v_usedLines = {0, 1}, v_status = \<lparr>withInputs = False, withPassword = False\<rparr>, v_err = None,
          v_goExec = \<lparr>Args = [''a'', ''b''], AutoGet = False, TempDir = ''/tmp'',
                       world = [Klog (InfoProgramArgs [''args'', ''a'', ''b''])]\<rparr>\<rparr>
   \<and> (1::int) < int (length [''%args a'' @ [backslash], ''b'', ''%autoget''])
   \<and> (1::int) \<in> {0, 1}
   \<and> Parse_iteration (recording (\<lambda>c. None)) NilMessage True [''%args a'' @ [backslash], ''b'', ''%autoget''] 1
        \<lparr>v_usedLines = {0, 1}, v_status = \<lparr>withInputs = False, withPassword = False\<rparr>, v_err = None,
          v_goExec = \<lparr>Args = [''a'', ''b''], AutoGet = False, TempDir = ''/tmp'',
                       world = [Klog (InfoProgramArgs [''args'', ''a'', ''b''])]\<rparr>\<rparr>
      = Continue
        \<lparr>v_usedLines = {0, 1}, v_status = \<lparr>withInputs = False, withPassword = False\<rparr>, v_err = None,
          v_goExec = \<lparr>Args = [''a'', ''b''], AutoGet = False, TempDir = ''/tmp'',
                       world = [Klog (InfoProgramArgs [''args'', ''a'', ''b''])]\<rparr>\<rparr>
   \<and> Parse_reach (recording (\<lambda>c. None)) NilMessage True [''%args a'' @ [backslash], ''b'', ''%autoget'']
      (Parse_start \<lparr>Args = [], AutoGet = False, TempDir = ''/tmp'', world = []\<rparr> {}) 2
      \<lparr>v_usedLines = {0, 1}, v_status = \<lparr>withInputs = False, withPassword = False\<rparr>, v_err = None,
        v_goExec = \<lparr>Args = [''a'', ''b''], AutoGet = False, TempDir = ''/tmp'',
                     world = [Klog (InfoProgramArgs [''args'', ''a'', ''b''])]\<rparr>\<rparr>
   \<and> (2::int) < int (length [''%args a'' @ [backslash], ''b'', ''%autoget''])
   \<and> (2::int) \<notin> {0, 1}
   \<and> (\<exists>m. (0::int) \<le> m \<and> {0, 1} = {} \<union> {0..m} \<and> m < 2)
   \<and> joinLine [''%args a'' @ [backslash], ''b'', ''%autoget''] 2 {0, 1} = Returns (''%autoget'', {0, 1, 2})
   \<and> (\<exists>m. (2::int) \<le> m \<and> m < int (length [''%args a'' @ [backslash], ''b'', ''%autoget''])
          \<and> {0, 1, 2} = {0, 1} \<union> {2..m} \<and> {2..m} \<inter> {0, 1} \<subseteq> {})"
proof -
  let ?E = "recording (\<lambda>c. None)"
  let ?L = "[''%args a'' @ [backslash], ''b'', ''%autoget'']"
  let ?V0 = "Parse_start \<lparr>Args = [], AutoGet = False, TempDir = ''/tmp'', world = []\<rparr> {} :: call list vars"
  let ?V1 = "\<lparr>v_usedLines = {0, 1}, v_status = \<lparr>withInputs = False, withPassword = False\<rparr>, v_err = None,
        v_goExec = \<lparr>Args = [''a'', ''b''], AutoGet = False, TempDir = ''/tmp'',
                     world = [Klog (InfoProgramArgs [''args'', ''a'', ''b''])]\<rparr>\<rparr> :: call list vars"
  have r0: "Parse_reach ?E NilMessage True ?L ?V0 0 ?V0" by (rule reach_start)
  have l0: "(0::int) < int (length ?L)" by simp
  have j0: "joinLine ?L 0 {} = Returns (''%args a b'', {0, 1})"
    by (auto simp add: joinLine_def joinLine_loop.simps)
  have i0: "Parse_iteration ?E NilMessage True ?L 0 ?V0 = Continue ?V1"
    by (auto simp add: run_defs recording_def)
  have r1: "Parse_reach ?E NilMessage True ?L ?V0 1 ?V1"
    using reach_step[OF r0 l0 i0] by simp
  have l1: "(1::int) < int (length ?L)" by simp
  have i1: "Parse_iteration ?E NilMessage True ?L 1 ?V1 = Continue ?V1"
    by (simp add: Parse_iteration_def)
  have r2: "Parse_reach ?E NilMessage True ?L ?V0 2 ?V1"
    using reach_step[OF r1 l1 i1] by simp
  have l2: "(2::int) < int (length ?L)" by simp
  have j2: "joinLine ?L 2 {0, 1} = Returns (''%autoget'', {0, 1, 2})"
    by (auto simp add: joinLine_def joinLine_loop.simps)
  have n0: "(0::int) \<notin> v_usedLines ?V0" by (simp add: Parse_start_def)
  have j0': "joinLine ?L 0 (v_usedLines ?V0) = Returns (''%args a b'', {0, 1})"
    using j0 by (simp add: Parse_start_def)
  have sp0: "length (?L ! nat 0) > 1 \<and> (hd (?L ! nat 0) = CHR ''%'' \<or> hd (?L ! nat 0) = CHR ''!'')"
    by simp
  from Parse_no_line_twice[OF r0 l0, THEN conjunct2, rule_format, OF n0 j0']
  obtain m0 where m0: "0 \<le> m0" "{0, 1} = v_usedLines ?V0 \<union> {0..m0}"
    and later: "\<forall>n' w. Parse_reach ?E NilMessage True ?L ?V0 n' w \<and> 0 < n' \<longrightarrow>
                  {0, 1} \<subseteq> v_usedLines w \<and> (n' \<notin> v_usedLines w \<longrightarrow> m0 < n')"
    using sp0 by blast
  have a1: "{0, 1} \<subseteq> v_usedLines ?V1" using later r1 by simp
  have "(2::int) \<notin> v_usedLines ?V1" by simp
  then have "m0 < 2" using later r2 by (metis zero_less_numeral)
  then have a2: "\<exists>m. (0::int) \<le> m \<and> {0, 1} = {} \<union> {0..m} \<and> m < 2"
    using m0 by (auto simp: Parse_start_def)
  have s1: "Parse_iteration ?E NilMessage True ?L 1 ?V1 = Continue ?V1"
    using Parse_no_line_twice[OF r1 l1, THEN conjunct1] by simp
  have n2: "(2::int) \<notin> v_usedLines ?V1" by simp
  have j2': "joinLine ?L 2 (v_usedLines ?V1) = Returns (''%autoget'', {0, 1, 2})"
    using j2 by simp
  from Parse_no_line_twice[OF r2 l2, THEN conjunct2, rule_format, OF n2 j2']
  obtain m2 where "2 \<le> m2" "m2 < int (length ?L)" "{0, 1, 2} = v_usedLines ?V1 \<union> {2..m2}"
    "{2..m2} \<inter> v_usedLines ?V1 \<subseteq> v_usedLines ?V0" by blast
  then have a3: "\<exists>m. (2::int) \<le> m \<and> m < int (length ?L)
          \<and> {0, 1, 2} = {0, 1} \<union> {2..m} \<and> {2..m} \<inter> {0, 1} \<subseteq> {}"
    by (intro exI[of _ m2]) (simp add: Parse_start_def)
  show ?thesis
    using r0 r1 r2 j0 j2 a1 a2 a3 s1 by simp
qed

subsection \<open>The execute flag\<close>

lemma Parse_reach_loop:
  "Parse_reach env msg execute codeLines v0 lineNum v \<Longrightarrow>
     Parse_loop env msg execute codeLines 0 v0 = Parse_loop env msg execute codeLines lineNum v"
proof (induction rule: Parse_reach.induct)
  case reach_start
  show ?case by simp
next
  case (reach_step lineNum v v')
  then show ?case by (simp add: Parse_loop.simps[of env msg execute codeLines lineNum v])
qed

text \<open>
  Where an iteration of the executing pass falls through, the iteration of the pass
  that does not execute falls through too, with the same \<^verbatim>\<open>usedLines\<close> and nothing else
  changed.
\<close>

lemma Parse_iteration_no_execute:
  assumes "Parse_iteration env msg True codeLines lineNum v = Continue v'"
    and "v_usedLines w = v_usedLines v"
  shows "Parse_iteration env msg False codeLines lineNum w = Continue (w\<lparr>v_usedLines := v_usedLines v'\<rparr>)"
proof (cases "lineNum \<notin> v_usedLines v \<and> length (codeLines ! nat lineNum) > 1
             \<and> (hd (codeLines ! nat lineNum) = CHR ''%'' \<or> hd (codeLines ! nat lineNum) = CHR ''!'')")
  case False
  then have "Parse_iteration env msg True codeLines lineNum v = Continue v"
    unfolding Parse_iteration_def by auto
  then have "v' = v" using assms(1) by simp
  moreover have "Parse_iteration env msg False codeLines lineNum w = Continue w"
    using False assms(2) unfolding Parse_iteration_def by auto
  ultimately show ?thesis using assms(2) by simp
next
  case True
  show ?thesis
  proof (cases "Parse_command codeLines lineNum (v_usedLines v)")
    case Panic
    then have "Parse_iteration env msg True codeLines lineNum v = Panicked"
      using True unfolding Parse_iteration_def by simp
    then show ?thesis using assms by simp
  next
    case (Returns r)
    obtain cmdType cmdStr used where r: "r = (cmdType, cmdStr, used)" by (cases r) auto
    have it: "Parse_iteration env msg True codeLines lineNum v =
          (if length cmdStr = 0 then Continue (v\<lparr>v_usedLines := used\<rparr>)
           else Parse_switch env msg cmdType cmdStr (v\<lparr>v_usedLines := used\<rparr>))"
      using True Returns r unfolding Parse_iteration_def by simp
    have u: "v_usedLines v' = used"
    proof (cases "length cmdStr = 0")
      case True
      then show ?thesis using it assms(1) by auto
    next
      case False
      then have "Parse_switch env msg cmdType cmdStr (v\<lparr>v_usedLines := used\<rparr>) = Continue v'
               \<or> Parse_switch env msg cmdType cmdStr (v\<lparr>v_usedLines := used\<rparr>) = Return v'"
        using assms(1) it by simp
      from Parse_switch_usedLines[OF this] show ?thesis by simp
    qed
    have "Parse_iteration env msg False codeLines lineNum w = Continue (w\<lparr>v_usedLines := used\<rparr>)"
      using True Returns r assms(2) unfolding Parse_iteration_def by simp
    then show ?thesis using u by simp
  qed
qed

lemma Parse_reach_no_execute:
  assumes "Parse_reach env msg True codeLines v0 lineNum v"
  shows "Parse_reach env msg False codeLines v0 lineNum (v0\<lparr>v_usedLines := v_usedLines v\<rparr>)"
  using assms
proof (induction rule: Parse_reach.induct)
  case reach_start
  show ?case using Parse_reach.reach_start[of env msg False codeLines v0] by simp
next
  case (reach_step lineNum v v')
  have "Parse_iteration env msg False codeLines lineNum (v0\<lparr>v_usedLines := v_usedLines v\<rparr>)
          = Continue (v0\<lparr>v_usedLines := v_usedLines v'\<rparr>)"
    using Parse_iteration_no_execute[OF reach_step.hyps(3), of "v0\<lparr>v_usedLines := v_usedLines v\<rparr>"]
    by simp
  from Parse_reach.reach_step[OF reach_step.IH reach_step.hyps(2) this] show ?case .
qed

lemma Parse_iteration_False_frame:
  "Parse_iteration env msg False codeLines lineNum v = Panicked
   \<or> (\<exists>u. Parse_iteration env msg False codeLines lineNum v = Continue (v\<lparr>v_usedLines := u\<rparr>))"
proof (cases "lineNum \<notin> v_usedLines v \<and> length (codeLines ! nat lineNum) > 1
             \<and> (hd (codeLines ! nat lineNum) = CHR ''%'' \<or> hd (codeLines ! nat lineNum) = CHR ''!'')")
  case False
  then have "Parse_iteration env msg False codeLines lineNum v = Continue (v\<lparr>v_usedLines := v_usedLines v\<rparr>)"
    unfolding Parse_iteration_def by auto
  then show ?thesis by blast
next
  case True
  show ?thesis
  proof (cases "Parse_command codeLines lineNum (v_usedLines v)")
    case Panic
    then show ?thesis using True unfolding Parse_iteration_def by simp
  next
    case (Returns r)
    obtain cmdType cmdStr used where r: "r = (cmdType, cmdStr, used)" by (cases r) auto
    have "Parse_iteration env msg False codeLines lineNum v = Continue (v\<lparr>v_usedLines := used\<rparr>)"
      using True Returns r unfolding Parse_iteration_def by simp
    then show ?thesis by blast
  qed
qed

lemma Parse_reach_False_frame:
  "Parse_reach env msg False codeLines v0 lineNum v \<Longrightarrow>
     v_status v = v_status v0 \<and> v_err v = v_err v0 \<and> v_goExec v = v_goExec v0"
proof (induction rule: Parse_reach.induct)
  case reach_start
  show ?case by simp
next
  case (reach_step lineNum v v')
  from Parse_iteration_False_frame[of env msg codeLines lineNum v] reach_step.hyps(3)
  obtain u where "v' = v\<lparr>v_usedLines := u\<rparr>" by auto
  then show ?case using reach_step.IH by simp
qed

lemma Parse_loop_False_frame:
  "Parse_loop env msg False codeLines lineNum v = Panic
   \<or> (\<exists>u. Parse_loop env msg False codeLines lineNum v = Returns (v\<lparr>v_usedLines := u\<rparr>))"
proof (induction "nat (int (length codeLines) - lineNum)" arbitrary: lineNum v)
  case 0
  then have "Parse_loop env msg False codeLines lineNum v = Returns (v\<lparr>v_usedLines := v_usedLines v\<rparr>)"
    by (simp add: Parse_loop.simps[of env msg False codeLines lineNum v])
  then show ?case by blast
next
  case (Suc k)
  then have lt: "lineNum < int (length codeLines)" by linarith
  have k: "k = nat (int (length codeLines) - (lineNum + 1))" using Suc.hyps(2) by linarith
  from Parse_iteration_False_frame[of env msg codeLines lineNum v]
  show ?case
  proof
    assume "Parse_iteration env msg False codeLines lineNum v = Panicked"
    then show ?thesis using lt by (simp add: Parse_loop.simps[of env msg False codeLines lineNum v])
  next
    assume "\<exists>u. Parse_iteration env msg False codeLines lineNum v = Continue (v\<lparr>v_usedLines := u\<rparr>)"
    then obtain u where u: "Parse_iteration env msg False codeLines lineNum v = Continue (v\<lparr>v_usedLines := u\<rparr>)"
      by blast
    have eq: "Parse_loop env msg False codeLines lineNum v
             = Parse_loop env msg False codeLines (lineNum + 1) (v\<lparr>v_usedLines := u\<rparr>)"
      using lt u by (simp add: Parse_loop.simps[of env msg False codeLines lineNum v])
    from Suc.hyps(1)[OF k, of "v\<lparr>v_usedLines := u\<rparr>"] show ?thesis unfolding eq by auto
  qed
qed

text \<open>
  C10. When no executed command returns an error, so that the executing pass runs to the
  end of the cell (it reaches \<^verbatim>\<open>lineNum = len(codeLines)\<close> with the variables \<open>v\<close>), \<^verbatim>\<open>Parse\<close>
  returns the same \<^verbatim>\<open>usedLines\<close> with \<^verbatim>\<open>execute\<close> true and false. With \<^verbatim>\<open>execute\<close> false,
  \<^verbatim>\<open>Parse\<close> does nothing but fill \<^verbatim>\<open>usedLines\<close>: if it returns, it returns a nil error and
  the state it was given, and at every head of the loop it reaches, also in a pass that
  panics later, the state, the error and the cell status are still the initial ones. The
  theorem holds for all collaborators, among them those that change the state at every
  call, so a pass with \<^verbatim>\<open>execute\<close> false calls none of them.
\<close>

theorem Parse_execute_flag:
  "(Parse_reach env msg True codeLines (Parse_start goExec usedLines) (int (length codeLines)) v \<longrightarrow>
      Parse env msg goExec True codeLines usedLines = Returns (v_err v, v_usedLines v, v_goExec v)
    \<and> Parse env msg goExec False codeLines usedLines = Returns (None, v_usedLines v, goExec))
   \<and> (Parse env msg goExec False codeLines usedLines = Panic
      \<or> (\<exists>used. Parse env msg goExec False codeLines usedLines = Returns (None, used, goExec)))
   \<and> (\<forall>lineNum w. Parse_reach env msg False codeLines (Parse_start goExec usedLines) lineNum w \<longrightarrow>
         v_goExec w = goExec \<and> v_err w = None
         \<and> v_status w = \<lparr>withInputs = False, withPassword = False\<rparr>)"
proof (intro conjI impI allI)
  assume r: "Parse_reach env msg True codeLines (Parse_start goExec usedLines) (int (length codeLines)) v"
  have "Parse_loop env msg True codeLines 0 (Parse_start goExec usedLines) = Returns v"
    using Parse_reach_loop[OF r] by (simp add: Parse_loop.simps[of env msg True codeLines "int (length codeLines)"])
  then show "Parse env msg goExec True codeLines usedLines = Returns (v_err v, v_usedLines v, v_goExec v)"
    by (simp add: Parse_def)
  have "Parse_loop env msg False codeLines 0 (Parse_start goExec usedLines)
          = Returns ((Parse_start goExec usedLines)\<lparr>v_usedLines := v_usedLines v\<rparr>)"
    using Parse_reach_loop[OF Parse_reach_no_execute[OF r]]
    by (simp add: Parse_loop.simps[of env msg False codeLines "int (length codeLines)"])
  then show "Parse env msg goExec False codeLines usedLines = Returns (None, v_usedLines v, goExec)"
    by (simp add: Parse_def Parse_start_def)
next
  from Parse_loop_False_frame[of env msg codeLines 0 "Parse_start goExec usedLines"]
  show "Parse env msg goExec False codeLines usedLines = Panic
      \<or> (\<exists>used. Parse env msg goExec False codeLines usedLines = Returns (None, used, goExec))"
    by (auto simp: Parse_def Parse_start_def)
next
  fix lineNum w
  assume "Parse_reach env msg False codeLines (Parse_start goExec usedLines) lineNum w"
  from Parse_reach_False_frame[OF this]
  show "v_goExec w = goExec" "v_err w = None" "v_status w = \<lparr>withInputs = False, withPassword = False\<rparr>"
    by (simp_all add: Parse_start_def)
qed

theorem Parse_execute_flag_witness:
  "Parse_reach (recording (\<lambda>c. None)) NilMessage True [''%autoget'', ''x := 1'', ''!ls'']
      (Parse_start \<lparr>Args = [], AutoGet = False, TempDir = ''/tmp'', world = []\<rparr> {})
      (int (length [''%autoget'', ''x := 1'', ''!ls'']))
      \<lparr>v_usedLines = {0, 2}, v_status = \<lparr>withInputs = False, withPassword = False\<rparr>, v_err = None,
        v_goExec = \<lparr>Args = [], AutoGet = True, TempDir = ''/tmp'',
                     world = [PipeExecToJupyter NilMessage ''ls'' [] NoInput, AutoTrack]\<rparr>\<rparr>
   \<and> Parse (recording (\<lambda>c. None)) NilMessage \<lparr>Args = [], AutoGet = False, TempDir = ''/tmp'', world = []\<rparr>
        True [''%autoget'', ''x := 1'', ''!ls''] {}
      = Returns (None, {0, 2}, \<lparr>Args = [], AutoGet = True, TempDir = ''/tmp'',
                     world = [PipeExecToJupyter NilMessage ''ls'' [] NoInput, AutoTrack]\<rparr>)
   \<and> Parse (recording (\<lambda>c. None)) NilMessage \<lparr>Args = [], AutoGet = False, TempDir = ''/tmp'', world = []\<rparr>
        False [''%autoget'', ''x := 1'', ''!ls''] {}
      = Returns (None, {0, 2}, \<lparr>Args = [], AutoGet = False, TempDir = ''/tmp'', world = []\<rparr>)
   \<and> Parse_reach (recording (\<lambda>c. None)) NilMessage False [''%autoget'', ''x := 1'', ''!ls'']
      (Parse_start \<lparr>Args = [], AutoGet = False, TempDir = ''/tmp'', world = []\<rparr> {}) 1
      \<lparr>v_usedLines = {0}, v_status = \<lparr>withInputs = False, withPassword = False\<rparr>, v_err = None,
        v_goExec = \<lparr>Args = [], AutoGet = False, TempDir = ''/tmp'', world = []\<rparr>\<rparr>"
proof -
  let ?E = "recording (\<lambda>c. None)"
  let ?L = "[''%autoget'', ''x := 1'', ''!ls'']"
  let ?G = "\<lparr>Args = [], AutoGet = False, TempDir = ''/tmp'', world = []\<rparr> :: call list State"
  let ?V0 = "Parse_start ?G {} :: call list vars"
  let ?V1 = "\<lparr>v_usedLines = {0}, v_status = \<lparr>withInputs = False, withPassword = False\<rparr>, v_err = None,
        v_goExec = \<lparr>Args = [], AutoGet = True, TempDir = ''/tmp'', world = []\<rparr>\<rparr> :: call list vars"
  let ?V3 = "\<lparr>v_usedLines = {0, 2}, v_status = \<lparr>withInputs = False, withPassword = False\<rparr>, v_err = None,
        v_goExec = \<lparr>Args = [], AutoGet = True, TempDir = ''/tmp'',
                     world = [PipeExecToJupyter NilMessage ''ls'' [] NoInput, AutoTrack]\<rparr>\<rparr> :: call list vars"
  let ?W1 = "\<lparr>v_usedLines = {0}, v_status = \<lparr>withInputs = False, withPassword = False\<rparr>, v_err = None,
        v_goExec = ?G\<rparr> :: call list vars"
  have i0: "Parse_iteration ?E NilMessage True ?L 0 ?V0 = Continue ?V1"
    by (simp add: run_defs recording_def)
  have r1: "Parse_reach ?E NilMessage True ?L ?V0 1 ?V1"
    using reach_step[OF reach_start _ i0] by simp
  have i1: "Parse_iteration ?E NilMessage True ?L 1 ?V1 = Continue ?V1"
    by (simp add: Parse_iteration_def)
  have r2: "Parse_reach ?E NilMessage True ?L ?V0 2 ?V1"
    using reach_step[OF r1 _ i1] by simp
  have i2: "Parse_iteration ?E NilMessage True ?L 2 ?V1 = Continue ?V3"
    by (auto simp add: run_defs recording_def)
  have r3: "Parse_reach ?E NilMessage True ?L ?V0 (int (length ?L)) ?V3"
    using reach_step[OF r2 _ i2] by simp
  have f0: "Parse_iteration ?E NilMessage False ?L 0 ?V0 = Continue ?W1"
    by (simp add: run_defs recording_def)
  have w1: "Parse_reach ?E NilMessage False ?L ?V0 1 ?W1"
    using reach_step[OF reach_start _ f0] by simp
  from Parse_execute_flag[of ?E NilMessage ?L ?G "{}" ?V3]
  have "Parse ?E NilMessage ?G True ?L {} = Returns (v_err ?V3, v_usedLines ?V3, v_goExec ?V3)
      \<and> Parse ?E NilMessage ?G False ?L {} = Returns (None, v_usedLines ?V3, ?G)"
    using r3 by blast
  then show ?thesis using r3 w1 by simp
qed

subsection \<open>Unknown commands\<close>

text \<open>
  C8. For a command whose name (\<^verbatim>\<open>parts[0]\<close>) is none of the \<^verbatim>\<open>case\<close> labels, \<^verbatim>\<open>execInternal\<close>
  publishes \<^verbatim>\<open>"%name" unknown or not implemented yet.\<close> on the error stream and returns a
  nil error; if publishing fails, that error is logged and dropped. The cell status and
  the state are otherwise unchanged. (The message's content, when there is one, is a
  map, as the type assertion at the head of \<^verbatim>\<open>execInternal\<close> requires for every command.)
\<close>

theorem execInternal_unknown:
  assumes "splitCmd cmdStr = name # args"
    and "name \<notin> set dispatch_names"
    and "msg \<noteq> Msg OtherContent"
  shows "execInternal env msg goExec cmdStr status =
           Returns (None, status,
             logged env (ErrorReportingUnknown name)
               (perform env (PublishWriteStream msg StreamStderr
                  ([dquote] @ ''%'' @ name @ [dquote] @ '' unknown or not implemented yet.'')) goExec))"
proof -
  obtain content where c: "content_of msg = Returns content"
    using assms(3) by (cases msg; cases "case msg of Msg c \<Rightarrow> c") (auto simp: content_of_def)
  show ?thesis
    using assms(1,2) c by (simp add: execInternal_def dispatch_names_def)
qed

theorem execInternal_unknown_witness:
  "splitCmd ''foo bar'' = ''foo'' # [''bar'']
   \<and> ''foo'' \<notin> set dispatch_names
   \<and> NilMessage \<noteq> Msg OtherContent
   \<and> execInternal (recording (\<lambda>c. None)) NilMessage
        \<lparr>Args = [], AutoGet = False, TempDir = ''/tmp'', world = []\<rparr> ''foo bar''
        \<lparr>withInputs = False, withPassword = False\<rparr>
      = Returns (None, \<lparr>withInputs = False, withPassword = False\<rparr>,
          \<lparr>Args = [], AutoGet = False, TempDir = ''/tmp'',
            world = [PublishWriteStream NilMessage StreamStderr
                       ([dquote] @ ''%foo'' @ [dquote] @ '' unknown or not implemented yet.'')]\<rparr>)"
proof -
  have a: "splitCmd ''foo bar'' = ''foo'' # [''bar'']"
    by (simp add: splitCmd_def isSpace_def flush_def fmt_c_def)
  have b: "''foo'' \<notin> set dispatch_names" by (simp add: dispatch_names_def)
  have c: "NilMessage \<noteq> Msg OtherContent" by simp
  show ?thesis
    using execInternal_unknown[OF a b c, of "recording (\<lambda>c. None)"
        "\<lparr>Args = [], AutoGet = False, TempDir = ''/tmp'', world = []\<rparr>"
        "\<lparr>withInputs = False, withPassword = False\<rparr>"] a b
    by (simp add: logged_def recording_def)
qed

subsection \<open>Where Parse departs from its documentation\<close>

text \<open>
  C4. A command with malformed arguments is not reported and passed over: \<^verbatim>\<open>execInternal\<close>
  returns the error and \<^verbatim>\<open>Parse\<close> returns it at once. On the cell \<^verbatim>\<open>%env X\<close>, \<^verbatim>\<open>%autoget\<close>
  (and on \<^verbatim>\<open>%cd a b\<close>, \<^verbatim>\<open>%autoget\<close>) the executing pass returns the error of line 0, has
  consumed line 0 only, and leaves the state as it was: \<^verbatim>\<open>%autoget\<close> was never run and no
  call was made, so nothing was published. The pass that does not execute consumes both
  lines.
\<close>

theorem Parse_returns_syntax_error:
  "Parse env NilMessage goExec True [''%env X'', ''%autoget''] {}
     = Returns (Some (EnvArgCount 1), {0}, goExec)
   \<and> Parse env NilMessage goExec True [''%cd a b'', ''%autoget''] {}
     = Returns (Some (CdArgCount 2), {0}, goExec)
   \<and> Parse env NilMessage goExec False [''%env X'', ''%autoget''] {}
     = Returns (None, {0, 1}, goExec)"
  by (auto simp add: run_defs)

text \<open>
  C5. An error of \<^verbatim>\<open>goExec.AutoTrack()\<close> is logged, but it stays in the named result
  \<^verbatim>\<open>err\<close>: when no later command overwrites it, \<^verbatim>\<open>Parse\<close> returns it. On the cell \<^verbatim>\<open>!ls\<close>,
  with a shell command that succeeds and an \<^verbatim>\<open>AutoTrack\<close> that fails with \<open>e\<close>, \<^verbatim>\<open>Parse\<close>
  returns \<open>e\<close>.
\<close>

theorem Parse_returns_AutoTrack_error:
  assumes "perform env (PipeExecToJupyter msg ''ls'' [] NoInput) goExec = (None, s1)"
    and "perform env AutoTrack s1 = (Some e, s2)"
  shows "Parse env msg goExec True [''!ls''] {}
           = Returns (Some e, {0}, effect env (Klog (ErrorAutoTrackFailed e)) s2)"
  using assms by (simp add: run_defs)

theorem Parse_returns_AutoTrack_error_witness:
  "perform (recording (\<lambda>c. if c = AutoTrack then Some (External ''go.mod'') else None))
       (PipeExecToJupyter NilMessage ''ls'' [] NoInput)
       \<lparr>Args = [], AutoGet = False, TempDir = ''/tmp'', world = []\<rparr>
     = (None, \<lparr>Args = [], AutoGet = False, TempDir = ''/tmp'',
               world = [PipeExecToJupyter NilMessage ''ls'' [] NoInput]\<rparr>)
   \<and> perform (recording (\<lambda>c. if c = AutoTrack then Some (External ''go.mod'') else None)) AutoTrack
       \<lparr>Args = [], AutoGet = False, TempDir = ''/tmp'',
         world = [PipeExecToJupyter NilMessage ''ls'' [] NoInput]\<rparr>
     = (Some (External ''go.mod''), \<lparr>Args = [], AutoGet = False, TempDir = ''/tmp'',
               world = [PipeExecToJupyter NilMessage ''ls'' [] NoInput, AutoTrack]\<rparr>)
   \<and> Parse (recording (\<lambda>c. if c = AutoTrack then Some (External ''go.mod'') else None)) NilMessage
       \<lparr>Args = [], AutoGet = False, TempDir = ''/tmp'', world = []\<rparr> True [''!ls''] {}
     = Returns (Some (External ''go.mod''), {0},
         \<lparr>Args = [], AutoGet = False, TempDir = ''/tmp'',
           world = [PipeExecToJupyter NilMessage ''ls'' [] NoInput, AutoTrack,
                    Klog (ErrorAutoTrackFailed (External ''go.mod''))]\<rparr>)"
proof -
  let ?E = "recording (\<lambda>c. if c = AutoTrack then Some (External ''go.mod'') else None)"
  let ?G = "\<lparr>Args = [], AutoGet = False, TempDir = ''/tmp'', world = []\<rparr> :: call list State"
  let ?s1 = "\<lparr>Args = [], AutoGet = False, TempDir = ''/tmp'',
               world = [PipeExecToJupyter NilMessage ''ls'' [] NoInput]\<rparr> :: call list State"
  let ?s2 = "\<lparr>Args = [], AutoGet = False, TempDir = ''/tmp'',
               world = [PipeExecToJupyter NilMessage ''ls'' [] NoInput, AutoTrack]\<rparr> :: call list State"
  have a: "perform ?E (PipeExecToJupyter NilMessage ''ls'' [] NoInput) ?G = (None, ?s1)"
    by (simp add: recording_def)
  have b: "perform ?E AutoTrack ?s1 = (Some (External ''go.mod''), ?s2)"
    by (simp add: recording_def)
  show ?thesis
    using Parse_returns_AutoTrack_error[OF a b] a b by (simp add: effect_def recording_def)
qed

text \<open>
  C6. A line that is a sigil followed by spaces only is not passed over: the loop that
  skips the spaces reads \<^verbatim>\<open>cmdStr[0]\<close> of the empty string and \<^verbatim>\<open>Parse\<close> panics, whatever
  \<^verbatim>\<open>execute\<close> is; the check \<^verbatim>\<open>len(cmdStr) == 0\<close> after the loop is never reached with an
  empty \<^verbatim>\<open>cmdStr\<close>. A sigil followed by a tab reaches \<^verbatim>\<open>execInternal\<close>, which panics on
  \<^verbatim>\<open>parts[0]\<close>.
\<close>

theorem Parse_empty_command_panics:
  "Parse env msg goExec execute [''% ''] {} = Panic
   \<and> Parse env msg goExec execute [''!  ''] {} = Panic
   \<and> Parse env NilMessage goExec True [[CHR ''%'', tab]] {} = Panic"
  by (simp add: run_defs)

end
